theory Spec2Isabelle
  imports Complex_Main "HOL-Library.AList"
begin

section \<open>BaseStrategy (base\_strategy.py): a shallow embedding\<close>

text \<open>
  The strategy object is a record of its attributes; every method takes the state and
  returns the new one. What the host framework provides (open trades, tickers, the clock,
  \<open>timeframe_to_minutes\<close>, pair locks) is read from a record \<open>host\<close>. Calls into
  the host that have an effect (logger, notifier, \<open>unlock_reason\<close>) are appended to the
  field \<open>events\<close> in the order the code makes them.

  Conventions:
  \<^item> Python floats are idealised as \<open>real\<close>: arithmetic is exact, and \<open>inf\<close> and
    \<open>nan\<close> are not values of the model. Division by zero raises, as in Python.
  \<^item> A log message is represented by the text of its f-string, without interpolation.
    The logger receives the message without the time prefix the code puts in front.
  \<^item> A dict whose order of iteration matters is an association list, new keys at the end.
\<close>

subsection \<open>Python values and exceptions\<close>

datatype py_error = KeyError | ZeroDivisionError | TypeError | ValueError

datatype pyval = PNone | PBool bool | PInt int | PFloat real | PStr string

text \<open>\<open>isinstance(v, int)\<close>: \<open>bool\<close> is a subclass of \<open>int\<close>.\<close>

fun isinstance_int :: "pyval \<Rightarrow> bool" where
  "isinstance_int (PInt i) = True"
| "isinstance_int (PBool b) = True"
| "isinstance_int v = False"

text \<open>The number a numeric value stands for in comparisons and arithmetic.\<close>

fun num_of :: "pyval \<Rightarrow> real option" where
  "num_of (PBool b) = Some (if b then 1 else 0)"
| "num_of (PInt i) = Some (real_of_int i)"
| "num_of (PFloat r) = Some r"
| "num_of v = None"

text \<open>\<open>a == b\<close> and \<open>a != b\<close>: numbers compare by value across \<open>bool\<close>, \<open>int\<close> and
  \<open>float\<close>; a number never equals \<open>None\<close> or a string.\<close>

definition py_eq :: "pyval \<Rightarrow> pyval \<Rightarrow> bool" where
  "py_eq a b = (case (num_of a, num_of b) of
       (Some x, Some y) \<Rightarrow> x = y
     | (None, None) \<Rightarrow> a = b
     | _ \<Rightarrow> False)"

definition py_ne :: "pyval \<Rightarrow> pyval \<Rightarrow> bool" where
  "py_ne a b = (\<not> py_eq a b)"

text \<open>\<open>a + n\<close> for an \<open>int\<close> n: an \<open>int\<close> for \<open>int\<close> and \<open>bool\<close>, a \<open>float\<close> for
  \<open>float\<close>, a \<open>TypeError\<close> for \<open>None\<close> and \<open>str\<close>.\<close>

fun py_add_int :: "pyval \<Rightarrow> int \<Rightarrow> py_error + pyval" where
  "py_add_int (PInt i) n = Inr (PInt (i + n))"
| "py_add_int (PBool b) n = Inr (PInt ((if b then 1 else 0) + n))"
| "py_add_int (PFloat r) n = Inr (PFloat (r + real_of_int n))"
| "py_add_int v n = Inl TypeError"


subsection \<open>Data\<close>

text \<open>A pandas DataFrame: the length of its index and its columns, each a list of cells.\<close>

record dataframe =
  nrows :: nat
  columns :: "(string \<times> pyval list) list"

text \<open>The fields of the host's \<open>Trade\<close> that the strategy reads.\<close>

record trade =
  trade_pair :: string
  stop_loss :: real
  stop_loss_pct :: real
  initial_stop_loss_pct :: real
  calc_profit_ratio :: "real \<Rightarrow> real"

text \<open>\<open>datetime\<close> values are microseconds on the local clock.\<close>

type_synonym datetime = int

record cache_entry =
  entry_tf :: string
  entry_df :: nat
  entry_datetime :: datetime

datatype event =
    LoggerCall string string
  | SendMsg string
  | UnlockReason string
  | AutolockCleared

text \<open>
  \<open>LoggerCall level message\<close> is \<open>self.logger.<level>(...)\<close>, \<open>SendMsg\<close> is
  \<open>self.dp.send_msg\<close>, \<open>UnlockReason\<close> is \<open>self.unlock_reason\<close>. \<open>AutolockCleared\<close>
  marks the execution of \<open>self.custom_info['remove-autolock'].clear()\<close>, so that its
  place among the host calls can be stated.
\<close>

record state =
  logger :: bool
  min_profit :: real
  leverage_configuration :: "(string \<times> pyval) list"
  minimal_roi :: "(string \<times> real) list"
  stoploss :: real
  config :: "string \<rightharpoonup> pyval"
  config_max_trades :: pyval
  max_open_trades :: pyval
  enable_improved_trade_count :: bool
  cache :: "(string \<times> cache_entry) list option"
  remove_autolock :: "string list option"
  frames :: "nat \<Rightarrow> dataframe"
  next_frame :: nat
  events :: "event list"

text \<open>
  \<open>logger\<close> is whether \<open>self.logger\<close> is set (it is \<open>None\<close> in the class body).
  The cache entries hold the address of their DataFrame (\<open>entry_df\<close>).
  \<open>cache\<close> and \<open>remove_autolock\<close> are \<open>custom_info['cache']\<close> and
  \<open>custom_info['remove-autolock']\<close>, \<open>None\<close> while the key is absent. \<open>frames\<close> is
  the store of DataFrame objects, addresses below \<open>next_frame\<close> being allocated.
\<close>

record host =
  open_trades :: "trade list"
  ticker_last :: "string \<Rightarrow> real"
  now :: datetime
  timeframe_to_minutes :: "string \<Rightarrow> int"
  pair_longest_lock :: "string \<Rightarrow> string option"

text \<open>
  \<open>open_trades\<close> is \<open>Trade.get_trades_proxy(is_open=True)\<close>, \<open>ticker_last p\<close> is
  \<open>self.dp.ticker(p)['last']\<close>, \<open>now\<close> is \<open>datetime.now()\<close>, and
  \<open>pair_longest_lock p\<close> is the formatted \<open>lock_end_time\<close> of
  \<open>PairLocks.get_pair_longest_lock(p)\<close>, \<open>None\<close> when there is no lock.
\<close>

subsection \<open>log\<close>

text \<open>The method \<open>log\<close>, named \<open>log_msg\<close> here (\<open>log\<close> is the logarithm).\<close>

definition emit :: "event \<Rightarrow> state \<Rightarrow> state" where
  "emit e s = s\<lparr>events := events s @ [e]\<rparr>"

definition log_msg :: "string \<Rightarrow> string \<Rightarrow> bool option \<Rightarrow> state \<Rightarrow> state" where
  "log_msg message level notify s =
     (let send_notification = (case notify of None \<Rightarrow> False | Some b \<Rightarrow> b);
          forced = (case notify of None \<Rightarrow> True | Some b \<Rightarrow> b);
          (s1, send_notification) =
            (if logger s then
               (if level = ''INFO'' then (emit (LoggerCall ''INFO'' message) s, send_notification)
                else if level = ''DEBUG'' then (emit (LoggerCall ''DEBUG'' message) s, send_notification)
                else if level = ''WARNING'' then (emit (LoggerCall ''WARNING'' message) s, forced)
                else if level = ''ERROR'' then (emit (LoggerCall ''ERROR'' message) s, forced)
                else (s, send_notification))
             else (s, send_notification))
      in if send_notification then emit (SendMsg message) s1 else s1)"

text \<open>The notifications a call has added to the trace.\<close>

definition sent :: "state \<Rightarrow> string list" where
  "sent s = [m. SendMsg m \<leftarrow> events s]"

subsection \<open>confirm\_trade\_exit\<close>

text \<open>\<open>super_confirmed\<close> is what \<open>super().confirm_trade_exit(...)\<close> returned.\<close>

definition confirm_trade_exit ::
  "bool \<Rightarrow> string \<Rightarrow> trade \<Rightarrow> string \<Rightarrow> real \<Rightarrow> real \<Rightarrow> string \<Rightarrow> string \<Rightarrow> datetime
     \<Rightarrow> state \<Rightarrow> bool \<times> state" where
  "confirm_trade_exit super_confirmed pair trade order_type amount rate time_in_force exit_reason
       current_time s =
     (let confirmed = super_confirmed in
      if exit_reason \<in> set [''roi'', ''stop_loss'', ''stoploss_on_exchange'',
                             ''trailing_stop_loss'', ''exit_signal''] then
        (let current_profit = calc_profit_ratio trade rate in
         if current_profit \<le> min_profit s then
           (False,
            log_msg ''{pair}: Reject exit ('{exit_reason}') on rate {rate} as the profit is {current_profit}.''
                ''WARNING'' None s)
         else (confirmed, s))
      else (confirmed, s))"

subsection \<open>The templated callbacks\<close>

text \<open>\<open>dataframe.loc[:, name] = v\<close>: every row of the column gets \<open>v\<close>; a column
  that does not exist is added after the others.\<close>

definition loc_set_column :: "string \<Rightarrow> pyval \<Rightarrow> dataframe \<Rightarrow> dataframe" where
  "loc_set_column name v d =
     d\<lparr>columns := AList.update name (replicate (nrows d) v) (columns d)\<rparr>"


definition populate_entry_trend :: "dataframe \<Rightarrow> 'm \<Rightarrow> dataframe" where
  "populate_entry_trend d metadata =
     (let d1 = loc_set_column ''enter_long'' (PInt 0) d;
          d2 = loc_set_column ''enter_short'' (PInt 0) d1
      in d2)"

definition populate_exit_trend :: "dataframe \<Rightarrow> 'm \<Rightarrow> dataframe" where
  "populate_exit_trend d metadata =
     (let d1 = loc_set_column ''exit_long'' (PInt 0) d;
          d2 = loc_set_column ''exit_short'' (PInt 0) d1
      in d2)"

subsection \<open>leverage\<close>

definition leverage ::
  "string \<Rightarrow> datetime \<Rightarrow> real \<Rightarrow> real \<Rightarrow> real \<Rightarrow> string option \<Rightarrow> string
     \<Rightarrow> state \<Rightarrow> pyval \<times> state" where
  "leverage pair current_time current_rate proposed_leverage max_leverage entry_tag side s =
     (let pairkey = pair @ ''_'' @ side;
          lev = (case map_of (leverage_configuration s) pairkey of
                   Some v \<Rightarrow> v
                 | None \<Rightarrow>
                    (case map_of (leverage_configuration s) ''default'' of
                       Some v \<Rightarrow> v
                     | None \<Rightarrow> PFloat 1.0))
      in (lev,
          log_msg ''Returning leverage '{leverage}' for pair {pair} and side {side}. Configuration = {self.leverage_configuration}''
            ''INFO'' None s))"

subsection \<open>Removal of auto locks\<close>

definition schedule_remove_autolock :: "string \<Rightarrow> state \<Rightarrow> py_error + state" where
  "schedule_remove_autolock pair s =
     (case remove_autolock s of
        None \<Rightarrow> Inl KeyError
      | Some pairs \<Rightarrow>
          Inr (log_msg ''Scheduled {pair} for removal of Auto Lock.'' ''INFO'' None
                 (s\<lparr>remove_autolock := Some (pairs @ [pair])\<rparr>)))"

definition is_locked_until :: "host \<Rightarrow> string \<Rightarrow> string" where
  "is_locked_until h pair =
     (case pair_longest_lock h pair of None \<Rightarrow> [] | Some until \<Rightarrow> until)"

subsection \<open>The cache of dataframes\<close>

text \<open>\<open>df.copy()\<close>: a new object with the contents of the one at \<open>df\<close>.\<close>

definition copy_frame :: "nat \<Rightarrow> state \<Rightarrow> nat \<times> state" where
  "copy_frame df s =
     (next_frame s,
      s\<lparr>frames := (frames s)(next_frame s := frames s df), next_frame := Suc (next_frame s)\<rparr>)"

text \<open>A change the caller makes in place to the DataFrame object at \<open>df\<close>.\<close>

definition mutate_frame :: "nat \<Rightarrow> (dataframe \<Rightarrow> dataframe) \<Rightarrow> state \<Rightarrow> state" where
  "mutate_frame df g s = s\<lparr>frames := (frames s)(df := g (frames s df))\<rparr>"

definition cache_dataframe :: "host \<Rightarrow> nat \<Rightarrow> string \<Rightarrow> string \<Rightarrow> state \<Rightarrow> py_error + state" where
  "cache_dataframe h df pair tf s =
     (case cache s of
        None \<Rightarrow> Inl KeyError
      | Some c \<Rightarrow>
          (let key = pair @ ''_'' @ tf;
               (stored_tf, s1) =
                  (case map_of c key of
                     None \<Rightarrow> (tf, log_msg ''Created custom cache storage for {key}.'' ''INFO'' None s)
                   | Some e \<Rightarrow> (entry_tf e, s));
               (copied, s2) = copy_frame df s1
           in Inr (s2\<lparr>cache := Some (AList.update key
                      \<lparr>entry_tf = stored_tf, entry_df = copied, entry_datetime = now h\<rparr> c)\<rparr>)))"

text \<open>The result is the address of the cached DataFrame, \<open>None\<close> for Python's \<open>None\<close>.\<close>

definition get_dataframe_from_cache :: "string \<Rightarrow> string \<Rightarrow> state \<Rightarrow> py_error + nat option" where
  "get_dataframe_from_cache pair tf s =
     (case cache s of
        None \<Rightarrow> Inl KeyError
      | Some c \<Rightarrow>
          (let key = pair @ ''_'' @ tf in
           case map_of c key of
             Some e \<Rightarrow> Inr (Some (entry_df e))
           | None \<Rightarrow> Inr None))"

text \<open>\<open>timedelta.total_seconds()\<close>.\<close>

definition total_seconds :: "int \<Rightarrow> real" where
  "total_seconds delta = real_of_int delta / 1000000"

text \<open>The first loop of \<open>cleanup_cache\<close>, over the keys of the cache \<open>c\<close>.\<close>

fun collect_outdated ::
  "host \<Rightarrow> (string \<times> cache_entry) list \<Rightarrow> string list \<Rightarrow> string list \<Rightarrow> state
     \<Rightarrow> py_error + (string list \<times> state)" where
  "collect_outdated h c [] outdatedkeys s = Inr (outdatedkeys, s)"
| "collect_outdated h c (key # keys) outdatedkeys s =
     (case map_of c key of
        None \<Rightarrow> Inl KeyError
      | Some e \<Rightarrow>
          (let minutes = total_seconds (now h - entry_datetime e) / 60 in
           if (minutes - 2) > real_of_int (timeframe_to_minutes h (entry_tf e)) then
             collect_outdated h c keys (outdatedkeys @ [key])
               (log_msg ''Removing cache storage for '{key}' because last update was {minutes} minutes ago''
                  ''INFO'' None s)
           else collect_outdated h c keys outdatedkeys s))"

text \<open>The second loop: \<open>del cache[key]\<close> raises for a key that is not there.\<close>

fun delete_keys ::
  "string list \<Rightarrow> (string \<times> cache_entry) list \<Rightarrow> py_error + (string \<times> cache_entry) list" where
  "delete_keys [] c = Inr c"
| "delete_keys (key # keys) c =
     (if map_of c key = None then Inl KeyError else delete_keys keys (AList.delete key c))"

definition cleanup_cache :: "host \<Rightarrow> state \<Rightarrow> py_error + state" where
  "cleanup_cache h s =
     (case cache s of
        None \<Rightarrow> Inl KeyError
      | Some c \<Rightarrow>
          (case collect_outdated h c (map fst c) [] s of
             Inl err \<Rightarrow> Inl err
           | Inr (outdatedkeys, s1) \<Rightarrow>
               (case delete_keys outdatedkeys c of
                  Inl err \<Rightarrow> Inl err
                | Inr c' \<Rightarrow> Inr (s1\<lparr>cache := Some c'\<rparr>))))"

subsection \<open>The number of open trades\<close>

text \<open>The loop of \<open>get_trade_stoploss_count\<close> over the open trades.\<close>

fun count_stoploss :: "host \<Rightarrow> trade list \<Rightarrow> nat \<Rightarrow> state \<Rightarrow> py_error + (nat \<times> state)" where
  "count_stoploss h [] trade_count s = Inr (trade_count, s)"
| "count_stoploss h (opentrade # opentrades) trade_count s =
     (let current_rate = ticker_last h (trade_pair opentrade);
          stoploss_current_dist = stop_loss opentrade - current_rate
      in if current_rate = 0 then Inl ZeroDivisionError
         else
           (let stoploss_current_dist_ratio = stoploss_current_dist / current_rate;
                s1 = log_msg ''{opentrade.pair}: current_rate is {current_rate}. Stoploss is {opentrade.stop_loss} ({opentrade.stop_loss_pct}%). SL distance is {stoploss_current_dist} with ratio {stoploss_current_dist_ratio}.''
                       ''DEBUG'' None s
            in if \<bar>initial_stop_loss_pct opentrade - stoploss_current_dist_ratio\<bar> > 0.1 then
                 count_stoploss h opentrades (trade_count + 1)
                   (log_msg ''{opentrade.pair}: stoploss is active!'' ''DEBUG'' None s1)
               else count_stoploss h opentrades trade_count s1))"

definition get_trade_stoploss_count :: "host \<Rightarrow> state \<Rightarrow> py_error + (nat \<times> state)" where
  "get_trade_stoploss_count h s = count_stoploss h (open_trades h) 0 s"

definition update_max_trade_count :: "host \<Rightarrow> state \<Rightarrow> py_error + state" where
  "update_max_trade_count h s =
     (if \<not> enable_improved_trade_count s then Inr s
      else
        (case get_trade_stoploss_count h s of
           Inl err \<Rightarrow> Inl err
         | Inr (sl_trade_count, s1) \<Rightarrow>
             (let current_trade_count = max_open_trades s1 in
              case py_add_int (config_max_trades s1) (int sl_trade_count) of
                Inl err \<Rightarrow> Inl err
              | Inr new_trade_count \<Rightarrow>
                  if py_ne current_trade_count new_trade_count then
                    (let s2 = log_msg ''Changing max allowed open trades from {current_trade_count} to {new_trade_count} based on config {self.config_max_trades} and currently {sl_trade_count} trades running in stoploss.''
                                ''INFO'' (Some True) s1
                     in Inr (s2\<lparr>max_open_trades := new_trade_count,
                                 config := (config s2)(''max_open_trades'' \<mapsto> new_trade_count)\<rparr>))
                  else
                    Inr (log_msg ''Leaving max allowed open trades on {new_trade_count} based on config {self.config_max_trades} and currently {sl_trade_count} trades running in stoploss.''
                           ''INFO'' None s1))))"

subsection \<open>bot\_start and bot\_loop\_start\<close>

definition bot_start :: "host \<Rightarrow> state \<Rightarrow> py_error + state" where
  "bot_start h s =
     (let s1 = s\<lparr>cache := Some [], remove_autolock := Some []\<rparr>;
          s2 = log_msg ''Version - Base Strategy: {BaseStrategy.version(self)}'' ''INFO'' None s1;
          s3 = log_msg ''Running with leverage configuration: {self.leverage_configuration}''
                 ''INFO'' None s2
      in update_max_trade_count h s3)"

text \<open>The minute and the second of a \<open>datetime\<close>.\<close>

definition minute_of :: "datetime \<Rightarrow> int" where
  "minute_of t = (t div 60000000) mod 60"

definition second_of :: "datetime \<Rightarrow> int" where
  "second_of t = (t div 1000000) mod 60"

text \<open>The sanity check after the unlock; \<open>h\<close> answers for the locks as they are then.\<close>

fun check_locks :: "host \<Rightarrow> string list \<Rightarrow> state \<Rightarrow> state" where
  "check_locks h [] s = s"
| "check_locks h (pair # pairs) s =
     (let lock = is_locked_until h pair in
      if lock \<noteq> [] then
        check_locks h pairs
          (log_msg ''{pair} has still an active lock until {lock}, while it should have been removed!''
             ''ERROR'' None s)
      else check_locks h pairs s)"

definition bot_loop_start :: "host \<Rightarrow> datetime \<Rightarrow> state \<Rightarrow> py_error + state" where
  "bot_loop_start h current_time s =
     (case (if minute_of current_time mod 5 = 0 \<and> second_of current_time \<le> 8 then
              (case cleanup_cache h s of
                 Inl err \<Rightarrow> Inl err
               | Inr s1 \<Rightarrow> update_max_trade_count h s1)
            else Inr s) of
        Inl err \<Rightarrow> Inl err
      | Inr s1 \<Rightarrow>
          (case remove_autolock s1 of
             None \<Rightarrow> Inl KeyError
           | Some pairs \<Rightarrow>
               if length pairs > 0 then
                 (let s2 = emit (UnlockReason ''Auto lock'') s1;
                      s3 = check_locks h pairs s2
                  in Inr (emit AutolockCleared (s3\<lparr>remove_autolock := Some []\<rparr>)))
               else Inr s1))"

subsection \<open>The constructor\<close>





text \<open>
  The attributes as the body of the class \<open>BaseStrategy\<close> sets them. \<open>max_open_trades\<close>
  and \<open>config\<close> are the host's: they are parameters here. The store of DataFrames is empty.
\<close>

definition BaseStrategy :: "pyval \<Rightarrow> (string \<rightharpoonup> pyval) \<Rightarrow> state" where
  "BaseStrategy host_max_open_trades host_config =
     \<lparr>logger = False,
      min_profit = 0.0025,
      leverage_configuration = [],
      minimal_roi = [(''0'', 0.01)],
      stoploss = - 0.99,
      config = host_config,
      config_max_trades = PInt 0,
      max_open_trades = host_max_open_trades,
      enable_improved_trade_count = False,
      cache = None,
      remove_autolock = None,
      frames = (\<lambda>a. \<lparr>nrows = 0, columns = []\<rparr>),
      next_frame = 0,
      events = []\<rparr>"

subsection \<open>The conditions as the specification words them\<close>

text \<open>A trade counts when \<open>|initial_stop_loss_pct - (stop_loss - last_rate) / last_rate|\<close>
  is above 0.1, \<open>last_rate\<close> being the last price of the ticker of the trade's pair.\<close>

definition in_stoploss_band :: "host \<Rightarrow> trade \<Rightarrow> bool" where
  "in_stoploss_band h t =
     (\<bar>initial_stop_loss_pct t
        - (stop_loss t - ticker_last h (trade_pair t)) / ticker_last h (trade_pair t)\<bar> > 0.1)"

text \<open>An entry is outdated when the time since its stored timestamp, in minutes, less two
  minutes, is above \<open>timeframe_to_minutes\<close> of its stored timeframe.\<close>

definition is_outdated :: "host \<Rightarrow> cache_entry \<Rightarrow> bool" where
  "is_outdated h e =
     (real_of_int (now h - entry_datetime e) / 1000000 / 60 - 2
        > real_of_int (timeframe_to_minutes h (entry_tf e)))"

subsection \<open>Example inputs\<close>

text \<open>Two open trades, a host and a started strategy, used to run the model on.\<close>

definition example_btc :: trade where
  "example_btc = \<lparr>trade_pair = ''BTC/USDT'', stop_loss = 90, stop_loss_pct = - 0.1,
     initial_stop_loss_pct = - 0.1, calc_profit_ratio = (\<lambda>rate. (rate - 100) / 100)\<rparr>"

definition example_eth :: trade where
  "example_eth = \<lparr>trade_pair = ''ETH/USDT'', stop_loss = 1800, stop_loss_pct = - 0.1,
     initial_stop_loss_pct = - 0.4, calc_profit_ratio = (\<lambda>rate. (rate - 3000) / 3000)\<rparr>"

definition example_host :: host where
  "example_host =
     \<lparr>open_trades = [example_btc, example_eth],
      ticker_last = (\<lambda>p. if p = ''BTC/USDT'' then 100 else 2000),
      now = 3780000000,
      timeframe_to_minutes = (\<lambda>t. if t = ''1h'' then 60 else 5),
      pair_longest_lock = (\<lambda>p. if p = ''ETH/USDT'' then Some ''2024-01-01 00:00:00'' else None)\<rparr>"

definition example_cache :: "(string \<times> cache_entry) list" where
  "example_cache =
     [(''BTC/USDT_1h'', \<lparr>entry_tf = ''1h'', entry_df = 0, entry_datetime = 0\<rparr>),
      (''ETH/USDT_1h'', \<lparr>entry_tf = ''1h'', entry_df = 1, entry_datetime = 60000000\<rparr>),
      (''ETH/USDT_5m'', \<lparr>entry_tf = ''5m'', entry_df = 2, entry_datetime = 3300000000\<rparr>)]"

definition example_state :: state where
  "example_state =
     (BaseStrategy (PInt 3) [''max_open_trades'' \<mapsto> PInt 3])
       \<lparr>logger := True, config_max_trades := PInt 3, enable_improved_trade_count := True,
        cache := Some example_cache, remove_autolock := Some [''ETH/USDT''],
        next_frame := 3\<rparr>"



text \<open>A strategy after \<open>bot_start\<close>, with one DataFrame in the store.\<close>

definition example_frames :: "nat \<Rightarrow> dataframe" where
  "example_frames a =
     (if a = 0 then \<lparr>nrows = 2, columns = [(''close'', [PFloat 100, PFloat 101])]\<rparr>
      else \<lparr>nrows = 0, columns = []\<rparr>)"

definition example_started :: state where
  "example_started =
     (BaseStrategy (PInt 3) [''max_open_trades'' \<mapsto> PInt 3])
       \<lparr>logger := True, cache := Some [], remove_autolock := Some [],
        frames := example_frames, next_frame := 1\<rparr>"

subsection \<open>Auxiliary notions for the proofs\<close>

text \<open>The events that \<open>log\<close> adds, and the states that differ by such events only.\<close>

fun is_log_event :: "event \<Rightarrow> bool" where
  "is_log_event (LoggerCall l m) = True"
| "is_log_event (SendMsg m) = True"
| "is_log_event e = False"

definition logged :: "state \<Rightarrow> state \<Rightarrow> bool" where
  "logged s s' = (\<exists>es. s' = s\<lparr>events := events s @ es\<rparr> \<and> list_all is_log_event es)"

text \<open>The block of \<open>bot_loop_start\<close> that runs once every five minutes.\<close>

definition periodic :: "host \<Rightarrow> datetime \<Rightarrow> state \<Rightarrow> py_error + state" where
  "periodic h current_time s =
     (if minute_of current_time mod 5 = 0 \<and> second_of current_time \<le> 8 then
        (case cleanup_cache h s of
           Inl err \<Rightarrow> Inl err
         | Inr s1 \<Rightarrow> update_max_trade_count h s1)
      else Inr s)"


section \<open>Properties\<close>

subsection \<open>What log leaves alone\<close>

lemma log_msg_fields [simp]:
  "logger (log_msg m l n s) = logger s"
  "min_profit (log_msg m l n s) = min_profit s"
  "leverage_configuration (log_msg m l n s) = leverage_configuration s"
  "minimal_roi (log_msg m l n s) = minimal_roi s"
  "stoploss (log_msg m l n s) = stoploss s"
  "config (log_msg m l n s) = config s"
  "config_max_trades (log_msg m l n s) = config_max_trades s"
  "max_open_trades (log_msg m l n s) = max_open_trades s"
  "enable_improved_trade_count (log_msg m l n s) = enable_improved_trade_count s"
  "cache (log_msg m l n s) = cache s"
  "remove_autolock (log_msg m l n s) = remove_autolock s"
  "frames (log_msg m l n s) = frames s"
  "next_frame (log_msg m l n s) = next_frame s"
  by (simp_all add: log_msg_def emit_def Let_def split: option.splits)

lemma events_log_msg: "\<exists>es. events (log_msg m l n s) = events s @ es"
  by (simp add: log_msg_def emit_def Let_def split: option.splits)

lemma sent_emit_SendMsg: "sent (emit (SendMsg m) s) = sent s @ [m]"
  by (simp add: sent_def emit_def)

lemma sent_emit_LoggerCall: "sent (emit (LoggerCall l m) s) = sent s"
  by (simp add: sent_def emit_def)

subsection \<open>log: when a notification is sent\<close>

text \<open>With a logger, a WARNING or an ERROR is notified unless \<open>notify\<close> is \<open>False\<close>.\<close>

lemma sent_log_msg_forced:
  "logger s \<Longrightarrow> level = ''WARNING'' \<or> level = ''ERROR'' \<Longrightarrow>
   sent (log_msg message level notify s)
     = sent s @ (if notify = Some False then [] else [message])"
  by (auto simp: log_msg_def sent_emit_SendMsg sent_emit_LoggerCall split: option.splits)

text \<open>
  C6 (the claim: a WARNING or an ERROR is always notified, whatever \<open>notify\<close> is).
  The code does not do so: on a strategy whose logger is set, \<open>log\<close> with level WARNING
  or ERROR and \<open>notify=False\<close> calls \<open>send_msg\<close> not at all, while with \<open>notify\<close>
  left out it sends the message.
\<close>

theorem log_notify_False_sends_nothing:
  "sent (log_msg ''lock still active'' ''WARNING'' (Some False)
           ((BaseStrategy PNone Map.empty)\<lparr>logger := True\<rparr>)) = []
   \<and> sent (log_msg ''lock still active'' ''ERROR'' (Some False)
           ((BaseStrategy PNone Map.empty)\<lparr>logger := True\<rparr>)) = []
   \<and> sent (log_msg ''lock still active'' ''WARNING'' None
           ((BaseStrategy PNone Map.empty)\<lparr>logger := True\<rparr>)) = [''lock still active'']"
  by (simp add: log_msg_def sent_def emit_def BaseStrategy_def)

subsection \<open>confirm\_trade\_exit\<close>

text \<open>
  C5: for each of the exit reasons roi, stop\_loss, stoploss\_on\_exchange,
  trailing\_stop\_loss and exit\_signal, \<open>confirm_trade_exit\<close> returns \<open>False\<close> when
  \<open>trade.calc_profit_ratio(rate) <= min_profit\<close>, a profit equal to \<open>min_profit\<close>
  included; for force\_exit and emergency\_exit it returns what the superclass returned
  and does nothing else. \<open>min_profit\<close> is 0.0025 in the class.
\<close>

theorem confirm_trade_exit_min_profit:
  "(exit_reason \<in> {''roi'', ''stop_loss'', ''stoploss_on_exchange'', ''trailing_stop_loss'',
                     ''exit_signal''}
      \<and> calc_profit_ratio trade rate \<le> min_profit s \<longrightarrow>
    fst (confirm_trade_exit super_confirmed pair trade order_type amount rate time_in_force
           exit_reason current_time s) = False)
   \<and> (exit_reason \<in> {''force_exit'', ''emergency_exit''} \<longrightarrow>
    confirm_trade_exit super_confirmed pair trade order_type amount rate time_in_force
           exit_reason current_time s = (super_confirmed, s))
   \<and> min_profit (BaseStrategy m c) = 0.0025"
  by (auto simp: confirm_trade_exit_def BaseStrategy_def)

theorem confirm_trade_exit_min_profit_witness:
  "''roi'' \<in> {''roi'', ''stop_loss'', ''stoploss_on_exchange'', ''trailing_stop_loss'',
                ''exit_signal''}
   \<and> calc_profit_ratio example_btc 100.25 = min_profit (BaseStrategy PNone Map.empty)
   \<and> fst (confirm_trade_exit True ''BTC/USDT'' example_btc ''limit'' 1 100.25 ''GTC'' ''roi'' 0
            (BaseStrategy PNone Map.empty)) = False
   \<and> ''force_exit'' \<in> {''force_exit'', ''emergency_exit''}
   \<and> confirm_trade_exit True ''BTC/USDT'' example_btc ''limit'' 1 100.25 ''GTC'' ''force_exit'' 0
         (BaseStrategy PNone Map.empty)
       = (True, BaseStrategy PNone Map.empty)"
proof -
  have p: "calc_profit_ratio example_btc 100.25 = 0.0025"
    by (simp add: example_btc_def)
  note a = confirm_trade_exit_min_profit [where exit_reason = "''roi''" and trade = example_btc
      and rate = "100.25" and s = "BaseStrategy PNone Map.empty" and super_confirmed = True
      and pair = "''BTC/USDT''" and order_type = "''limit''" and amount = 1
      and time_in_force = "''GTC''" and current_time = 0 and m = PNone and c = Map.empty]
  note b = confirm_trade_exit_min_profit [where exit_reason = "''force_exit''"
      and trade = example_btc
      and rate = "100.25" and s = "BaseStrategy PNone Map.empty" and super_confirmed = True
      and pair = "''BTC/USDT''" and order_type = "''limit''" and amount = 1
      and time_in_force = "''GTC''" and current_time = 0 and m = PNone and c = Map.empty]
  from a b p show ?thesis by simp
qed

subsection \<open>get\_trade\_stoploss\_count\<close>

lemma count_stoploss_total:
  "\<forall>t\<in>set ts. ticker_last h (trade_pair t) \<noteq> 0 \<Longrightarrow>
   \<exists>s'. count_stoploss h ts n s = Inr (n + length (filter (in_stoploss_band h) ts), s')"
proof (induction ts arbitrary: n s)
  case Nil
  then show ?case by simp
next
  case (Cons t ts)
  from Cons.prems have nz: "ticker_last h (trade_pair t) \<noteq> 0"
    and rest: "\<forall>t\<in>set ts. ticker_last h (trade_pair t) \<noteq> 0" by simp_all
  show ?case
  proof (cases "in_stoploss_band h t")
    case True
    from Cons.IH [OF rest] obtain s' where
      "count_stoploss h ts (n + 1)
         (log_msg ''{opentrade.pair}: stoploss is active!'' ''DEBUG'' None
           (log_msg ''{opentrade.pair}: current_rate is {current_rate}. Stoploss is {opentrade.stop_loss} ({opentrade.stop_loss_pct}%). SL distance is {stoploss_current_dist} with ratio {stoploss_current_dist_ratio}.''
              ''DEBUG'' None s))
       = Inr (n + 1 + length (filter (in_stoploss_band h) ts), s')"
      by blast
    moreover from True have "\<bar>initial_stop_loss_pct t
        - (stop_loss t - ticker_last h (trade_pair t)) / ticker_last h (trade_pair t)\<bar> > 0.1"
      unfolding in_stoploss_band_def .
    ultimately show ?thesis using nz True
      by (simp add: Let_def)
  next
    case False
    from Cons.IH [OF rest] obtain s' where
      "count_stoploss h ts n
           (log_msg ''{opentrade.pair}: current_rate is {current_rate}. Stoploss is {opentrade.stop_loss} ({opentrade.stop_loss_pct}%). SL distance is {stoploss_current_dist} with ratio {stoploss_current_dist_ratio}.''
              ''DEBUG'' None s)
       = Inr (n + length (filter (in_stoploss_band h) ts), s')"
      by blast
    moreover from False have "\<not> \<bar>initial_stop_loss_pct t
        - (stop_loss t - ticker_last h (trade_pair t)) / ticker_last h (trade_pair t)\<bar> > 0.1"
      unfolding in_stoploss_band_def .
    ultimately show ?thesis using nz False
      by (simp add: Let_def)
  qed
qed


text \<open>A last price of zero makes the division raise.\<close>

lemma count_stoploss_zero:
  "\<exists>t\<in>set ts. ticker_last h (trade_pair t) = 0 \<Longrightarrow>
   count_stoploss h ts n s = Inl ZeroDivisionError"
proof (induction ts arbitrary: n s)
  case Nil
  then show ?case by simp
next
  case (Cons t ts)
  then show ?case
    by (auto simp: Let_def)
qed



subsection \<open>cleanup\_cache\<close>

lemma collect_outdated_total:
  "set keys \<subseteq> fst ` set c \<Longrightarrow>
   \<exists>s'. collect_outdated h c keys acc s
          = Inr (acc @ filter (\<lambda>k. \<exists>e. map_of c k = Some e \<and> is_outdated h e) keys, s')
        \<and> cache s' = cache s \<and> remove_autolock s' = remove_autolock s"
proof (induction keys arbitrary: acc s)
  case Nil
  then show ?case by simp
next
  case (Cons k keys)
  from Cons.prems obtain e where e: "map_of c k = Some e"
    by (metis list.set_intros(1) subsetD map_of_eq_None_iff not_None_eq)
  from Cons.prems have sub: "set keys \<subseteq> fst ` set c" by simp
  show ?case
  proof (cases "is_outdated h e")
    case True
    from Cons.IH [OF sub, of "acc @ [k]"
        "log_msg ''Removing cache storage for '{key}' because last update was {minutes} minutes ago'' ''INFO'' None s"]
    show ?thesis using e True
      by (simp add: Let_def is_outdated_def total_seconds_def)
  next
    case False
    from Cons.IH [OF sub, of acc s]
    show ?thesis using e False
      by (simp add: Let_def is_outdated_def total_seconds_def)
  qed
qed

lemma delete_keys_total:
  "distinct keys \<Longrightarrow> set keys \<subseteq> fst ` set c \<Longrightarrow>
   delete_keys keys c = Inr (filter (\<lambda>(k, e). k \<notin> set keys) c)"
proof (induction keys arbitrary: c)
  case Nil
  then show ?case by simp
next
  case (Cons k keys)
  from Cons.prems have k: "map_of c k \<noteq> None"
    by (simp add: map_of_eq_None_iff)
  from Cons.prems have d: "distinct keys" by simp
  have "fst ` set (AList.delete k c) = fst ` set c - {k}"
    by (metis AList.delete_keys set_map set_removeAll)
  with Cons.prems have sub: "set keys \<subseteq> fst ` set (AList.delete k c)"
    by auto
  have "filter (\<lambda>(k', e). k' \<notin> set keys) (AList.delete k c)
        = filter (\<lambda>(k', e). k' \<notin> set (k # keys)) c"
    by (induction c) (auto simp: AList.delete_eq)
  with Cons.IH [OF d sub] k show ?case by simp
qed

lemma filter_outdated_keys:
  "distinct (map fst c) \<Longrightarrow>
   filter (\<lambda>(k, e). k \<notin> set (filter (\<lambda>k. \<exists>e. map_of c k = Some e \<and> is_outdated h e) (map fst c))) c
   = filter (\<lambda>(k, e). \<not> is_outdated h e) c"
  by (rule filter_cong) (auto simp: image_iff dest: eq_key_imp_eq_value)

text \<open>The whole of \<open>cleanup_cache\<close>, for the other callers of it below.\<close>

lemma cleanup_cache_result:
  assumes "cache s = Some c" and "distinct (map fst c)"
  shows "\<exists>s'. cleanup_cache h s = Inr s'
            \<and> cache s' = Some (filter (\<lambda>(key, e). \<not> is_outdated h e) c)
            \<and> remove_autolock s' = remove_autolock s"
proof -
  let ?out = "filter (\<lambda>k. \<exists>e. map_of c k = Some e \<and> is_outdated h e) (map fst c)"
  from collect_outdated_total [of "map fst c" c h "[]" s]
  obtain s1 where c1: "collect_outdated h c (map fst c) [] s = Inr (?out, s1)"
    and r1: "remove_autolock s1 = remove_autolock s"
    by auto
  have "distinct ?out" using assms(2) by simp
  moreover have "set ?out \<subseteq> fst ` set c" by auto
  ultimately have "delete_keys ?out c = Inr (filter (\<lambda>(k, e). k \<notin> set ?out) c)"
    by (rule delete_keys_total)
  with filter_outdated_keys [OF assms(2), of h]
  have "delete_keys ?out c = Inr (filter (\<lambda>(key, e). \<not> is_outdated h e) c)" by simp
  with c1 r1 assms(1) show ?thesis
    by (simp add: cleanup_cache_def)
qed

text \<open>
  C3: \<open>cleanup_cache\<close> removes exactly the cache entries for which the time since the
  stored timestamp, in minutes, less the margin of two minutes, is strictly above
  \<open>timeframe_to_minutes\<close> of the stored timeframe; every other entry stays as it is,
  in its place. (The keys of a dict are distinct.)
\<close>

theorem cleanup_cache_removes_outdated:
  assumes "cache s = Some c" and "distinct (map fst c)"
  shows "\<exists>s'. cleanup_cache h s = Inr s'
            \<and> cache s' = Some (filter (\<lambda>(key, e). \<not> is_outdated h e) c)"
  using cleanup_cache_result [OF assms, of h] by blast

theorem cleanup_cache_removes_outdated_witness:
  "cache example_state = Some example_cache \<and> distinct (map fst example_cache)
   \<and> (\<exists>s'. cleanup_cache example_host example_state = Inr s'
        \<and> cache s' = Some
             [(''ETH/USDT_1h'', \<lparr>entry_tf = ''1h'', entry_df = 1, entry_datetime = 60000000\<rparr>)])"
proof -
  have c: "cache example_state = Some example_cache"
    by (simp add: example_state_def BaseStrategy_def)
  have d: "distinct (map fst example_cache)"
    by (simp add: example_cache_def)
  have "filter (\<lambda>(key, e). \<not> is_outdated example_host e) example_cache
        = [(''ETH/USDT_1h'', \<lparr>entry_tf = ''1h'', entry_df = 1, entry_datetime = 60000000\<rparr>)]"
    by (simp add: example_cache_def example_host_def is_outdated_def)
  with cleanup_cache_removes_outdated [OF c d, of example_host] c d
  show ?thesis by simp
qed

subsection \<open>The templated callbacks\<close>

lemma map_of_loc_set_column:
  "map_of (columns (loc_set_column name v d)) =
     (map_of (columns d))(name \<mapsto> replicate (nrows d) v)"
  by (simp add: loc_set_column_def update_conv')



text \<open>The other columns keep their cells.\<close>

lemma populate_other_columns:
  "name \<noteq> ''enter_long'' \<Longrightarrow> name \<noteq> ''enter_short'' \<Longrightarrow>
   map_of (columns (populate_entry_trend d metadata)) name = map_of (columns d) name"
  "name \<noteq> ''exit_long'' \<Longrightarrow> name \<noteq> ''exit_short'' \<Longrightarrow>
   map_of (columns (populate_exit_trend d metadata)) name = map_of (columns d) name"
  by (simp_all add: populate_entry_trend_def populate_exit_trend_def map_of_loc_set_column)

subsection \<open>leverage\<close>

text \<open>
  C9: \<open>leverage\<close> returns \<open>leverage_configuration[pair_side]\<close> when that key is
  present, otherwise \<open>leverage_configuration['default']\<close> when present, otherwise 1.0.
  The value does not depend on the time, the rate, \<open>proposed_leverage\<close>, \<open>max_leverage\<close>
  or the entry tag, and it is not clamped to the interval from 1.0 to \<open>max_leverage\<close>:
  with \<open>max_leverage\<close> 5 a configured 20 is returned, and so is a configured 0.5.
\<close>

theorem leverage_from_configuration:
  "(let pairkey = pair @ ''_'' @ side;
        result = fst (leverage pair current_time current_rate proposed_leverage max_leverage
                        entry_tag side s)
    in if pairkey \<in> fst ` set (leverage_configuration s)
       then map_of (leverage_configuration s) pairkey = Some result
       else if ''default'' \<in> fst ` set (leverage_configuration s)
       then map_of (leverage_configuration s) ''default'' = Some result
       else result = PFloat 1.0)
   \<and> fst (leverage pair current_time current_rate proposed_leverage max_leverage entry_tag side s)
     = fst (leverage pair current_time' current_rate' proposed_leverage' max_leverage'
              entry_tag' side s)
   \<and> fst (leverage ''BTC/USDT'' 0 100 1 5 None ''long''
            ((BaseStrategy m c)\<lparr>leverage_configuration :=
               [(''default'', PFloat 0.5), (''BTC/USDT_long'', PFloat 20)]\<rparr>)) = PFloat 20
   \<and> fst (leverage ''BTC/USDT'' 0 100 1 5 None ''short''
            ((BaseStrategy m c)\<lparr>leverage_configuration :=
               [(''default'', PFloat 0.5), (''BTC/USDT_long'', PFloat 20)]\<rparr>)) = PFloat 0.5"
  by (auto simp: leverage_def Let_def BaseStrategy_def map_of_eq_None_iff [symmetric]
      split: option.splits)

subsection \<open>Functions that only log\<close>

lemma logged_refl: "logged s s"
  unfolding logged_def by (rule exI [of _ "[]"]) simp

lemma logged_trans:
  assumes "logged s s1" and "logged s1 s2"
  shows "logged s s2"
proof -
  from assms obtain es es' where a: "s1 = s\<lparr>events := events s @ es\<rparr>" "list_all is_log_event es"
    and b: "s2 = s1\<lparr>events := events s1 @ es'\<rparr>" "list_all is_log_event es'"
    unfolding logged_def by blast
  from a b have "s2 = s\<lparr>events := events s @ (es @ es')\<rparr> \<and> list_all is_log_event (es @ es')"
    by simp
  then show ?thesis unfolding logged_def by blast
qed

lemma logged_emit: "is_log_event e \<Longrightarrow> logged s (emit e s)"
  unfolding logged_def emit_def by (rule exI [of _ "[e]"]) simp

lemma log_msg_events:
  "log_msg m l n s =
     s\<lparr>events := events s
        @ (if logger s \<and> l \<in> {''INFO'', ''DEBUG'', ''WARNING'', ''ERROR''}
           then [LoggerCall l m] else [])
        @ (if (case n of None \<Rightarrow> logger s \<and> l \<in> {''WARNING'', ''ERROR''} | Some b \<Rightarrow> b)
           then [SendMsg m] else [])\<rparr>"
  by (cases n) (auto simp: log_msg_def emit_def)

lemma logged_log_msg: "logged s (log_msg m l n s)"
  unfolding logged_def
  by (subst log_msg_events, rule exI, rule conjI, rule refl) simp

lemma logged_fields:
  assumes "logged s s'"
  shows "config s' = config s" "max_open_trades s' = max_open_trades s"
    "config_max_trades s' = config_max_trades s"
    "enable_improved_trade_count s' = enable_improved_trade_count s"
    "cache s' = cache s" "remove_autolock s' = remove_autolock s"
    "frames s' = frames s" "next_frame s' = next_frame s"
    "\<exists>es. events s' = events s @ es \<and> list_all is_log_event es"
  using assms unfolding logged_def by auto

lemma count_stoploss_logged:
  "count_stoploss h ts n s = Inr (m, s') \<Longrightarrow> logged s s'"
proof (induction ts arbitrary: n s)
  case Nil
  then show ?case by (simp add: logged_refl)
next
  case (Cons t ts)
  let ?s1 = "log_msg ''{opentrade.pair}: current_rate is {current_rate}. Stoploss is {opentrade.stop_loss} ({opentrade.stop_loss_pct}%). SL distance is {stoploss_current_dist} with ratio {stoploss_current_dist_ratio}.''
              ''DEBUG'' None s"
  let ?s2 = "log_msg ''{opentrade.pair}: stoploss is active!'' ''DEBUG'' None ?s1"
  have l1: "logged s ?s1" by (rule logged_log_msg)
  have l2: "logged s ?s2" by (rule logged_trans [OF l1 logged_log_msg])
  from Cons.prems have "count_stoploss h ts (n + 1) ?s2 = Inr (m, s')
      \<or> count_stoploss h ts n ?s1 = Inr (m, s')"
    by (simp add: Let_def split: if_splits)
  then show ?case
  proof
    assume "count_stoploss h ts (n + 1) ?s2 = Inr (m, s')"
    then have "logged ?s2 s'" by (rule Cons.IH)
    with l2 show ?thesis by (rule logged_trans)
  next
    assume "count_stoploss h ts n ?s1 = Inr (m, s')"
    then have "logged ?s1 s'" by (rule Cons.IH)
    with l1 show ?thesis by (rule logged_trans)
  qed
qed

lemma get_trade_stoploss_count_logged:
  "get_trade_stoploss_count h s = Inr (m, s') \<Longrightarrow> logged s s'"
  by (simp add: get_trade_stoploss_count_def count_stoploss_logged)

lemma py_eq_add_int: "py_add_int v n = Inr new \<Longrightarrow> py_eq new new"
  by (cases v) (auto simp: py_eq_def)

lemma py_add_int_total: "isinstance_int v \<Longrightarrow> \<exists>new. py_add_int v n = Inr new"
  by (cases v) auto

subsection \<open>update\_max\_trade\_count\<close>

lemma update_max_trade_count_Inr:
  assumes en: "enable_improved_trade_count s" and r: "update_max_trade_count h s = Inr s'"
  shows "\<exists>n s1 new. get_trade_stoploss_count h s = Inr (n, s1)
      \<and> py_add_int (config_max_trades s) (int n) = Inr new
      \<and> py_eq (max_open_trades s') new
      \<and> (if py_ne (max_open_trades s) new
         then max_open_trades s' = new \<and> config s' = (config s)(''max_open_trades'' \<mapsto> new)
         else max_open_trades s' = max_open_trades s \<and> config s' = config s)
      \<and> remove_autolock s' = remove_autolock s \<and> cache s' = cache s
      \<and> (\<exists>es. events s' = events s @ es \<and> list_all is_log_event es)"
proof -
  from en r obtain n s1 where g: "get_trade_stoploss_count h s = Inr (n, s1)"
    by (auto simp: update_max_trade_count_def split: sum.splits)
  then have l1: "logged s s1" by (rule get_trade_stoploss_count_logged)
  note f1 = logged_fields [OF l1]
  from en r g obtain new where a: "py_add_int (config_max_trades s1) (int n) = Inr new"
    by (auto simp: update_max_trade_count_def Let_def split: sum.splits)
  have refl: "py_eq new new" using a by (rule py_eq_add_int)
  show ?thesis
  proof (cases "py_ne (max_open_trades s1) new")
    case True
    let ?s2 = "log_msg ''Changing max allowed open trades from {current_trade_count} to {new_trade_count} based on config {self.config_max_trades} and currently {sl_trade_count} trades running in stoploss.''
                                ''INFO'' (Some True) s1"
    have l2: "logged s ?s2" by (rule logged_trans [OF l1 logged_log_msg])
    note f2 = logged_fields [OF l2]
    from en r g a True
    have s': "s' = ?s2\<lparr>max_open_trades := new,
                       config := (config ?s2)(''max_open_trades'' \<mapsto> new)\<rparr>"
      by (simp add: update_max_trade_count_def Let_def)
    from f2(9) obtain es where "events ?s2 = events s @ es" "list_all is_log_event es"
      by blast
    with s' f1 f2 a refl True g show ?thesis
      by (intro exI [of _ n] exI [of _ s1] exI [of _ new]) simp
  next
    case False
    let ?s2 = "log_msg ''Leaving max allowed open trades on {new_trade_count} based on config {self.config_max_trades} and currently {sl_trade_count} trades running in stoploss.''
                           ''INFO'' None s1"
    have l2: "logged s ?s2" by (rule logged_trans [OF l1 logged_log_msg])
    note f2 = logged_fields [OF l2]
    from en r g a False have s': "s' = ?s2"
      by (simp add: update_max_trade_count_def Let_def)
    from False have "py_eq (max_open_trades s1) new" by (simp add: py_ne_def)
    with s' f1 f2 a False g show ?thesis
      by (intro exI [of _ n] exI [of _ s1] exI [of _ new]) simp
  qed
qed

lemma update_max_trade_count_total:
  assumes "\<forall>t\<in>set (open_trades h). ticker_last h (trade_pair t) \<noteq> 0"
    and "isinstance_int (config_max_trades s)"
  shows "\<exists>s'. update_max_trade_count h s = Inr s'"
proof (cases "enable_improved_trade_count s")
  case False
  then show ?thesis by (simp add: update_max_trade_count_def)
next
  case True
  from count_stoploss_total [OF assms(1), of 0 s] obtain n s1 where
    g: "get_trade_stoploss_count h s = Inr (n, s1)"
    by (auto simp: get_trade_stoploss_count_def)
  then have "logged s s1" by (rule get_trade_stoploss_count_logged)
  then have "config_max_trades s1 = config_max_trades s" by (rule logged_fields)
  with py_add_int_total [OF assms(2), of "int n"] obtain new where
    "py_add_int (config_max_trades s1) (int n) = Inr new" by auto
  with True g show ?thesis
    by (simp add: update_max_trade_count_def Let_def)
qed




subsection \<open>bot\_loop\_start\<close>

lemma collect_outdated_logged:
  "collect_outdated h c keys acc s = Inr (out, s') \<Longrightarrow> logged s s'"
proof (induction keys arbitrary: acc s)
  case Nil
  then show ?case by (simp add: logged_refl)
next
  case (Cons k keys)
  let ?s1 = "log_msg ''Removing cache storage for '{key}' because last update was {minutes} minutes ago'' ''INFO'' None s"
  from Cons.prems have "collect_outdated h c keys (acc @ [k]) ?s1 = Inr (out, s')
      \<or> collect_outdated h c keys acc s = Inr (out, s')"
    by (simp add: Let_def split: option.splits if_splits)
  then show ?case
  proof
    assume "collect_outdated h c keys (acc @ [k]) ?s1 = Inr (out, s')"
    then have "logged ?s1 s'" by (rule Cons.IH)
    with logged_log_msg show ?thesis by (rule logged_trans)
  next
    assume "collect_outdated h c keys acc s = Inr (out, s')"
    then show ?thesis by (rule Cons.IH)
  qed
qed

lemma cleanup_cache_Inr:
  assumes "cleanup_cache h s = Inr s'"
  shows "remove_autolock s' = remove_autolock s"
    and "config_max_trades s' = config_max_trades s"
    and "\<exists>es. events s' = events s @ es \<and> list_all is_log_event es"
proof -
  from assms obtain c out s1 c' where
    "collect_outdated h c (map fst c) [] s = Inr (out, s1)" and s': "s' = s1\<lparr>cache := Some c'\<rparr>"
    by (auto simp: cleanup_cache_def split: option.splits sum.splits)
  then have "logged s s1" by (simp add: collect_outdated_logged)
  note f = logged_fields [OF this]
  from f s' show "remove_autolock s' = remove_autolock s" by simp
  from f s' show "config_max_trades s' = config_max_trades s" by simp
  from f s' show "\<exists>es. events s' = events s @ es \<and> list_all is_log_event es" by simp
qed

lemma check_locks_logged: "logged s (check_locks h pairs s)"
proof (induction pairs arbitrary: s)
  case Nil
  show ?case by (simp add: logged_refl)
next
  case (Cons p pairs)
  show ?case
    by (auto simp: Let_def intro: Cons.IH logged_trans [OF logged_log_msg Cons.IH])
qed

lemma periodic_Inr:
  assumes "periodic h current_time s = Inr s1"
  shows "remove_autolock s1 = remove_autolock s"
    and "\<exists>es. events s1 = events s @ es \<and> list_all is_log_event es"
proof -
  have "remove_autolock s1 = remove_autolock s
      \<and> (\<exists>es. events s1 = events s @ es \<and> list_all is_log_event es)"
  proof (cases "minute_of current_time mod 5 = 0 \<and> second_of current_time \<le> 8")
    case False
    with assms have "s1 = s" by (simp add: periodic_def)
    then show ?thesis by (simp add: exI [of _ "[]"])
  next
    case True
    with assms obtain s0 where c: "cleanup_cache h s = Inr s0"
      and u: "update_max_trade_count h s0 = Inr s1"
      by (auto simp: periodic_def split: sum.splits)
    from cleanup_cache_Inr [OF c] obtain es0 where
      r0: "remove_autolock s0 = remove_autolock s"
      and e0: "events s0 = events s @ es0" "list_all is_log_event es0"
      by blast
    have "remove_autolock s1 = remove_autolock s0
      \<and> (\<exists>es. events s1 = events s0 @ es \<and> list_all is_log_event es)"
    proof (cases "enable_improved_trade_count s0")
      case True
      from update_max_trade_count_Inr [OF True u] show ?thesis by blast
    next
      case False
      with u have "s1 = s0" by (simp add: update_max_trade_count_def)
      then show ?thesis by (simp add: exI [of _ "[]"])
    qed
    then obtain es1 where "remove_autolock s1 = remove_autolock s0"
      and "events s1 = events s0 @ es1" "list_all is_log_event es1" by blast
    with r0 e0 have "remove_autolock s1 = remove_autolock s
      \<and> events s1 = events s @ (es0 @ es1) \<and> list_all is_log_event (es0 @ es1)"
      by simp
    then show ?thesis by blast
  qed
  then show "remove_autolock s1 = remove_autolock s"
    and "\<exists>es. events s1 = events s @ es \<and> list_all is_log_event es"
    by simp_all
qed

lemma bot_loop_start_periodic:
  "bot_loop_start h current_time s =
     (case periodic h current_time s of
        Inl err \<Rightarrow> Inl err
      | Inr s1 \<Rightarrow>
          (case remove_autolock s1 of
             None \<Rightarrow> Inl KeyError
           | Some pairs \<Rightarrow>
               if length pairs > 0 then
                 Inr (emit AutolockCleared
                   ((check_locks h pairs (emit (UnlockReason ''Auto lock'') s1))
                      \<lparr>remove_autolock := Some []\<rparr>))
               else Inr s1))"
  by (auto simp: bot_loop_start_def periodic_def Let_def split: sum.splits option.splits)

lemma bot_loop_start_Inr:
  assumes "bot_loop_start h current_time s = Inr s'"
  shows "remove_autolock s' = Some []"
    and "remove_autolock s = Some pairs \<Longrightarrow> pairs \<noteq> [] \<Longrightarrow>
         \<exists>pre mid. events s' = events s @ pre @ [UnlockReason ''Auto lock''] @ mid @ [AutolockCleared]
             \<and> list_all is_log_event pre \<and> list_all is_log_event mid"
proof -
  from assms obtain s1 where p: "periodic h current_time s = Inr s1"
    by (cases "periodic h current_time s") (simp_all add: bot_loop_start_periodic)
  with assms obtain ps where ra: "remove_autolock s1 = Some ps"
    by (cases "remove_autolock s1") (simp_all add: bot_loop_start_periodic)
  from assms p ra
  have s': "s' = (if length ps > 0 then emit AutolockCleared
                   ((check_locks h ps (emit (UnlockReason ''Auto lock'') s1))
                      \<lparr>remove_autolock := Some []\<rparr>) else s1)"
    by (simp add: bot_loop_start_periodic split: if_splits)
  from ra s' show "remove_autolock s' = Some []"
    by (auto simp: emit_def)
  assume a: "remove_autolock s = Some pairs" "pairs \<noteq> []"
  from periodic_Inr [OF p] obtain pre where r1: "remove_autolock s1 = remove_autolock s"
    and e1: "events s1 = events s @ pre" "list_all is_log_event pre" by blast
  from a r1 ra have ps: "ps = pairs" by simp
  let ?s2 = "emit (UnlockReason ''Auto lock'') s1"
  from logged_fields(9) [OF check_locks_logged [of ?s2 h ps]] obtain mid where
    "events (check_locks h ps ?s2) = events ?s2 @ mid" "list_all is_log_event mid" by blast
  with s' ps a e1 have "events s' = events s @ pre @ [UnlockReason ''Auto lock''] @ mid @ [AutolockCleared]
             \<and> list_all is_log_event pre \<and> list_all is_log_event mid"
    by (simp add: emit_def)
  then show "\<exists>pre mid. events s' = events s @ pre @ [UnlockReason ''Auto lock''] @ mid @ [AutolockCleared]
             \<and> list_all is_log_event pre \<and> list_all is_log_event mid"
    by blast
qed

lemma bot_loop_start_total:
  assumes ra: "remove_autolock s = Some pairs"
    and per: "minute_of current_time mod 5 = 0 \<and> second_of current_time \<le> 8 \<Longrightarrow>
       (\<exists>c. cache s = Some c \<and> distinct (map fst c))
       \<and> (\<forall>t\<in>set (open_trades h). ticker_last h (trade_pair t) \<noteq> 0)
       \<and> isinstance_int (config_max_trades s)"
  shows "\<exists>s'. bot_loop_start h current_time s = Inr s'"
proof -
  have "\<exists>s1. periodic h current_time s = Inr s1"
  proof (cases "minute_of current_time mod 5 = 0 \<and> second_of current_time \<le> 8")
    case False
    then show ?thesis by (auto simp: periodic_def)
  next
    case True
    from per [OF True] obtain c where c: "cache s = Some c" "distinct (map fst c)"
      and nz: "\<forall>t\<in>set (open_trades h). ticker_last h (trade_pair t) \<noteq> 0"
      and ii: "isinstance_int (config_max_trades s)" by blast
    from cleanup_cache_result [OF c, of h] obtain s0 where c0: "cleanup_cache h s = Inr s0"
      by blast
    from cleanup_cache_Inr(2) [OF c0] ii have "isinstance_int (config_max_trades s0)" by simp
    from update_max_trade_count_total [OF nz this] obtain s1 where
      "update_max_trade_count h s0 = Inr s1" by blast
    with True c0 show ?thesis by (simp add: periodic_def)
  qed
  then obtain s1 where p: "periodic h current_time s = Inr s1" by blast
  from periodic_Inr(1) [OF p] ra have "remove_autolock s1 = Some pairs" by simp
  with p show ?thesis by (simp add: bot_loop_start_periodic)
qed

text \<open>
  C8: after a call of \<open>bot_loop_start\<close> that returns, the list
  \<open>custom_info['remove-autolock']\<close> is empty; and when the list is not empty at entry,
  \<open>unlock_reason('Auto lock')\<close> is called before the list is cleared: the events of the
  call are log events, then the unlock, then log events, then the clearing. The call returns
  when the list exists and, on a five-minute tick, the cache exists with distinct keys, no
  last price is zero and \<open>config_max_trades\<close> is an int.
\<close>

theorem bot_loop_start_clears_autolock:
  "(bot_loop_start h current_time s = Inr s' \<longrightarrow>
      remove_autolock s' = Some []
      \<and> (remove_autolock s = Some pairs \<and> pairs \<noteq> [] \<longrightarrow>
          (\<exists>pre mid. events s'
               = events s @ pre @ [UnlockReason ''Auto lock''] @ mid @ [AutolockCleared]
             \<and> list_all is_log_event pre \<and> list_all is_log_event mid)))
   \<and> (remove_autolock s = Some pairs
        \<and> (minute_of current_time mod 5 = 0 \<and> second_of current_time \<le> 8 \<longrightarrow>
             (\<exists>c. cache s = Some c \<and> distinct (map fst c))
             \<and> (\<forall>t\<in>set (open_trades h). ticker_last h (trade_pair t) \<noteq> 0)
             \<and> isinstance_int (config_max_trades s)) \<longrightarrow>
       (\<exists>s2. bot_loop_start h current_time s = Inr s2))"
proof (intro conjI impI)
  assume r: "bot_loop_start h current_time s = Inr s'"
  then show "remove_autolock s' = Some []" by (rule bot_loop_start_Inr)
  assume "remove_autolock s = Some pairs \<and> pairs \<noteq> []"
  with bot_loop_start_Inr(2) [OF r, of pairs]
  show "\<exists>pre mid. events s'
               = events s @ pre @ [UnlockReason ''Auto lock''] @ mid @ [AutolockCleared]
             \<and> list_all is_log_event pre \<and> list_all is_log_event mid"
    by blast
next
  assume "remove_autolock s = Some pairs
        \<and> (minute_of current_time mod 5 = 0 \<and> second_of current_time \<le> 8 \<longrightarrow>
             (\<exists>c. cache s = Some c \<and> distinct (map fst c))
             \<and> (\<forall>t\<in>set (open_trades h). ticker_last h (trade_pair t) \<noteq> 0)
             \<and> isinstance_int (config_max_trades s))"
  then show "\<exists>s2. bot_loop_start h current_time s = Inr s2"
    using bot_loop_start_total [of s pairs current_time h] by blast
qed

subsection \<open>cache\_dataframe and get\_dataframe\_from\_cache\<close>

lemma cache_dataframe_result:
  assumes "cache s = Some c"
  shows "cache_dataframe h df pair tf s
     = Inr ((snd (copy_frame df
              (case map_of c (pair @ ''_'' @ tf) of
                 None \<Rightarrow> log_msg ''Created custom cache storage for {key}.'' ''INFO'' None s
               | Some e \<Rightarrow> s)))
          \<lparr>cache := Some (AList.update (pair @ ''_'' @ tf)
              \<lparr>entry_tf = (case map_of c (pair @ ''_'' @ tf) of None \<Rightarrow> tf | Some e \<Rightarrow> entry_tf e),
               entry_df = next_frame s, entry_datetime = now h\<rparr> c)\<rparr>)"
  using assms
  by (simp add: cache_dataframe_def copy_frame_def Let_def split: option.splits)

lemma get_dataframe_from_cache_mutate:
  "get_dataframe_from_cache pair tf (mutate_frame df g s) = get_dataframe_from_cache pair tf s"
  by (simp add: get_dataframe_from_cache_def mutate_frame_def)

text \<open>
  C4: after \<open>cache_dataframe(df, pair, tf)\<close> the call
  \<open>get_dataframe_from_cache(pair, tf)\<close> returns a dataframe with the contents \<open>df\<close>
  had; the cache holds a copy, so a later change of the caller's \<open>df\<close> in place changes
  neither what the cache returns nor its contents; and for a key with no entry, never cached
  or removed by \<open>cleanup_cache\<close>, the result is \<open>None\<close>. (The cache exists once
  \<open>bot_start\<close> has run; the caller's \<open>df\<close> is an allocated object.)
\<close>

theorem cache_dataframe_roundtrip:
  assumes "cache s = Some c"
  shows "(\<exists>s' a. cache_dataframe h df pair tf s = Inr s'
            \<and> get_dataframe_from_cache pair tf s' = Inr (Some a)
            \<and> frames s' a = frames s df
            \<and> (df < next_frame s \<longrightarrow>
                 (\<forall>g. get_dataframe_from_cache pair tf (mutate_frame df g s') = Inr (Some a)
                      \<and> frames (mutate_frame df g s') a = frames s df)))
       \<and> (map_of c (pair @ ''_'' @ tf) = None \<longrightarrow>
            get_dataframe_from_cache pair tf s = Inr None)
       \<and> (distinct (map fst c)
            \<and> (\<exists>e. map_of c (pair @ ''_'' @ tf) = Some e \<and> is_outdated h e) \<longrightarrow>
            (\<exists>s'. cleanup_cache h s = Inr s'
                 \<and> get_dataframe_from_cache pair tf s' = Inr None))"
proof (intro conjI impI)
  let ?key = "pair @ ''_'' @ tf"
  let ?s1 = "case map_of c ?key of
                 None \<Rightarrow> log_msg ''Created custom cache storage for {key}.'' ''INFO'' None s
               | Some e \<Rightarrow> s"
  let ?s' = "(snd (copy_frame df ?s1))
          \<lparr>cache := Some (AList.update ?key
              \<lparr>entry_tf = (case map_of c ?key of None \<Rightarrow> tf | Some e \<Rightarrow> entry_tf e),
               entry_df = next_frame s, entry_datetime = now h\<rparr> c)\<rparr>"
  have r: "cache_dataframe h df pair tf s = Inr ?s'"
    using assms by (rule cache_dataframe_result)
  have l1: "logged s ?s1"
    by (cases "map_of c ?key") (simp_all add: logged_refl logged_log_msg)
  have n1: "next_frame ?s1 = next_frame s" and f1: "frames ?s1 = frames s"
    using logged_fields [OF l1] by simp_all
  have g: "get_dataframe_from_cache pair tf ?s' = Inr (Some (next_frame s))"
    by (simp add: get_dataframe_from_cache_def update_conv')
  have "frames (snd (copy_frame df ?s1)) (next_frame ?s1) = frames ?s1 df"
    unfolding copy_frame_def by simp
  then have f: "frames ?s' (next_frame s) = frames s df"
    by (simp only: n1 f1) simp
  have m: "df < next_frame s \<longrightarrow>
        (\<forall>g. get_dataframe_from_cache pair tf (mutate_frame df g ?s') = Inr (Some (next_frame s))
            \<and> frames (mutate_frame df g ?s') (next_frame s) = frames s df)"
  proof (intro impI allI conjI)
    fix g
    show "get_dataframe_from_cache pair tf (mutate_frame df g ?s') = Inr (Some (next_frame s))"
      using g by (simp only: get_dataframe_from_cache_mutate)
    assume "df < next_frame s"
    then have "df \<noteq> next_frame s" by simp
    then have "frames (mutate_frame df g ?s') (next_frame s) = frames ?s' (next_frame s)"
      unfolding mutate_frame_def by simp
    with f show "frames (mutate_frame df g ?s') (next_frame s) = frames s df"
      by (simp only:)
  qed
  from r g f m
  show "\<exists>s' a. cache_dataframe h df pair tf s = Inr s'
            \<and> get_dataframe_from_cache pair tf s' = Inr (Some a)
            \<and> frames s' a = frames s df
            \<and> (df < next_frame s \<longrightarrow>
                 (\<forall>g. get_dataframe_from_cache pair tf (mutate_frame df g s') = Inr (Some a)
                      \<and> frames (mutate_frame df g s') a = frames s df))"
    by blast
next
  assume "map_of c (pair @ ''_'' @ tf) = None"
  with assms show "get_dataframe_from_cache pair tf s = Inr None"
    by (simp add: get_dataframe_from_cache_def)
next
  assume a: "distinct (map fst c)
            \<and> (\<exists>e. map_of c (pair @ ''_'' @ tf) = Some e \<and> is_outdated h e)"
  then have d: "distinct (map fst c)" by simp
  from cleanup_cache_result [OF assms d, of h] obtain s' where
    c: "cleanup_cache h s = Inr s'"
    and c': "cache s' = Some (filter (\<lambda>(key, e). \<not> is_outdated h e) c)" by blast
  from a obtain e where e: "map_of c (pair @ ''_'' @ tf) = Some e" "is_outdated h e" by blast
  have "map_of (filter (\<lambda>(key, e). \<not> is_outdated h e) c) (pair @ ''_'' @ tf) = None"
  proof (rule ccontr)
    assume "map_of (filter (\<lambda>(key, e). \<not> is_outdated h e) c) (pair @ ''_'' @ tf) \<noteq> None"
    then obtain e' where "map_of (filter (\<lambda>(key, e). \<not> is_outdated h e) c) (pair @ ''_'' @ tf) = Some e'"
      by blast
    then have "(pair @ ''_'' @ tf, e') \<in> set (filter (\<lambda>(key, e). \<not> is_outdated h e) c)"
      by (rule map_of_SomeD)
    then have "(pair @ ''_'' @ tf, e') \<in> set c" and n: "\<not> is_outdated h e'" by simp_all
    with d have "map_of c (pair @ ''_'' @ tf) = Some e'" by simp
    with e n show False by simp
  qed
  with c c' show "\<exists>s'. cleanup_cache h s = Inr s'
                 \<and> get_dataframe_from_cache pair tf s' = Inr None"
    by (simp add: get_dataframe_from_cache_def)
qed

subsection \<open>The constructor\<close>












subsection \<open>bot\_start and schedule\_remove\_autolock\<close>

text \<open>\<open>bot_start\<close> creates the cache and the list, both empty.\<close>

lemma bot_start_initialises:
  assumes "bot_start h s = Inr s'"
  shows "cache s' = Some [] \<and> remove_autolock s' = Some []"
proof -
  let ?s3 = "log_msg ''Running with leverage configuration: {self.leverage_configuration}''
                 ''INFO'' None
               (log_msg ''Version - Base Strategy: {BaseStrategy.version(self)}'' ''INFO'' None
                 (s\<lparr>cache := Some [], remove_autolock := Some []\<rparr>))"
  from assms have u: "update_max_trade_count h ?s3 = Inr s'"
    by (simp add: bot_start_def Let_def)
  have "cache s' = cache ?s3 \<and> remove_autolock s' = remove_autolock ?s3"
  proof (cases "enable_improved_trade_count ?s3")
    case True
    from update_max_trade_count_Inr [OF True u] show ?thesis by blast
  next
    case False
    with u have "s' = ?s3" by (simp add: update_max_trade_count_def)
    then show ?thesis by simp
  qed
  then show ?thesis by simp
qed

text \<open>\<open>schedule_remove_autolock\<close> puts the pair at the end of the list.\<close>

lemma schedule_remove_autolock_appends:
  "remove_autolock s = Some pairs \<Longrightarrow>
   \<exists>s'. schedule_remove_autolock pair s = Inr s' \<and> remove_autolock s' = Some (pairs @ [pair])"
  by (simp add: schedule_remove_autolock_def)

subsection \<open>The theorems on the example inputs\<close>

theorem bot_loop_start_clears_autolock_witness:
  "remove_autolock example_state = Some [''ETH/USDT''] \<and> [''ETH/USDT''] \<noteq> ([] :: string list)
   \<and> minute_of 303000000 mod 5 = 0 \<and> second_of 303000000 \<le> 8
   \<and> cache example_state = Some example_cache \<and> distinct (map fst example_cache)
   \<and> list_all (\<lambda>t. ticker_last example_host (trade_pair t) \<noteq> 0) (open_trades example_host)
   \<and> isinstance_int (config_max_trades example_state)
   \<and> (\<exists>s'. bot_loop_start example_host 303000000 example_state = Inr s'
         \<and> remove_autolock s' = Some []
         \<and> (\<exists>pre mid. events s'
               = events example_state @ pre @ [UnlockReason ''Auto lock''] @ mid @ [AutolockCleared]
             \<and> list_all is_log_event pre \<and> list_all is_log_event mid))"
proof -
  have ra: "remove_autolock example_state = Some [''ETH/USDT'']"
    and c: "cache example_state = Some example_cache"
    and ii: "isinstance_int (config_max_trades example_state)"
    by (simp_all add: example_state_def BaseStrategy_def)
  have d: "distinct (map fst example_cache)" by (simp add: example_cache_def)
  have nz: "\<forall>t\<in>set (open_trades example_host). ticker_last example_host (trade_pair t) \<noteq> 0"
    by (simp add: example_host_def example_btc_def example_eth_def)
  have t: "minute_of 303000000 mod 5 = 0 \<and> second_of 303000000 \<le> 8"
    by (simp add: minute_of_def second_of_def)
  note th = bot_loop_start_clears_autolock [where h = example_host and s = example_state
      and current_time = 303000000 and pairs = "[''ETH/USDT'']"]
  from th ra c d nz ii obtain s2 where
    r: "bot_loop_start example_host 303000000 example_state = Inr s2" by blast
  from th [where s' = s2] r ra
  have "remove_autolock s2 = Some []
         \<and> (\<exists>pre mid. events s2
               = events example_state @ pre @ [UnlockReason ''Auto lock''] @ mid @ [AutolockCleared]
             \<and> list_all is_log_event pre \<and> list_all is_log_event mid)"
    by blast
  with r ra c d nz ii t show ?thesis by (simp add: list_all_iff)
qed

theorem cache_dataframe_roundtrip_witness:
  "cache example_started = Some []
   \<and> (0::nat) < next_frame example_started
   \<and> (\<exists>s'. cache_dataframe example_host 0 ''BTC/USDT'' ''1h'' example_started = Inr s'
        \<and> get_dataframe_from_cache ''BTC/USDT'' ''1h'' s' = Inr (Some 1)
        \<and> frames s' 1 = \<lparr>nrows = 2, columns = [(''close'', [PFloat 100, PFloat 101])]\<rparr>
        \<and> get_dataframe_from_cache ''BTC/USDT'' ''1h''
             (mutate_frame 0 (\<lambda>d. populate_entry_trend d ()) s') = Inr (Some 1)
        \<and> frames (mutate_frame 0 (\<lambda>d. populate_entry_trend d ()) s') 1
            = \<lparr>nrows = 2, columns = [(''close'', [PFloat 100, PFloat 101])]\<rparr>
        \<and> frames (mutate_frame 0 (\<lambda>d. populate_entry_trend d ()) s') 0
            \<noteq> \<lparr>nrows = 2, columns = [(''close'', [PFloat 100, PFloat 101])]\<rparr>)
   \<and> map_of ([] :: (string \<times> cache_entry) list) (''ETH/USDT'' @ ''_'' @ ''1h'') = None
   \<and> get_dataframe_from_cache ''ETH/USDT'' ''1h'' example_started = Inr None
   \<and> cache example_state = Some example_cache \<and> distinct (map fst example_cache)
   \<and> map_of example_cache (''BTC/USDT'' @ ''_'' @ ''1h'')
       = Some \<lparr>entry_tf = ''1h'', entry_df = 0, entry_datetime = 0\<rparr>
   \<and> is_outdated example_host \<lparr>entry_tf = ''1h'', entry_df = 0, entry_datetime = 0\<rparr>
   \<and> (\<exists>s'. cleanup_cache example_host example_state = Inr s'
         \<and> get_dataframe_from_cache ''BTC/USDT'' ''1h'' s' = Inr None)"
proof -
  have c: "cache example_started = Some []" and n: "(0::nat) < next_frame example_started"
    and f0: "frames example_started 0
       = \<lparr>nrows = 2, columns = [(''close'', [PFloat 100, PFloat 101])]\<rparr>"
    and nf: "next_frame example_started = 1"
    by (simp_all add: example_started_def BaseStrategy_def example_frames_def)
  note th = cache_dataframe_roundtrip [OF c, where h = example_host and df = 0]
  from th [where pair = "''BTC/USDT''" and tf = "''1h''"] n
  obtain s' a where r: "cache_dataframe example_host 0 ''BTC/USDT'' ''1h'' example_started = Inr s'"
    and g: "get_dataframe_from_cache ''BTC/USDT'' ''1h'' s' = Inr (Some a)"
    and f: "frames s' a = frames example_started 0"
    and m: "\<forall>g. get_dataframe_from_cache ''BTC/USDT'' ''1h'' (mutate_frame 0 g s') = Inr (Some a)
                      \<and> frames (mutate_frame 0 g s') a = frames example_started 0"
    by blast
  from r g c nf have a: "a = 1"
    by (auto simp: cache_dataframe_def get_dataframe_from_cache_def copy_frame_def Let_def
        update_conv')
  from r c nf f0 have f0': "frames s' 0 = \<lparr>nrows = 2, columns = [(''close'', [PFloat 100, PFloat 101])]\<rparr>"
    by (auto simp: cache_dataframe_def copy_frame_def Let_def)
  have mut: "frames (mutate_frame 0 (\<lambda>d. populate_entry_trend d ()) s') 0
            \<noteq> \<lparr>nrows = 2, columns = [(''close'', [PFloat 100, PFloat 101])]\<rparr>"
    by (simp add: mutate_frame_def f0' populate_entry_trend_def loc_set_column_def)
  from th [where pair = "''ETH/USDT''" and tf = "''1h''"]
  have e: "get_dataframe_from_cache ''ETH/USDT'' ''1h'' example_started = Inr None"
    by simp
  have c2: "cache example_state = Some example_cache"
    by (simp add: example_state_def BaseStrategy_def)
  have d: "distinct (map fst example_cache)"
    and mo: "map_of example_cache (''BTC/USDT'' @ ''_'' @ ''1h'')
       = Some \<lparr>entry_tf = ''1h'', entry_df = 0, entry_datetime = 0\<rparr>"
    by (simp_all add: example_cache_def)
  have o: "is_outdated example_host \<lparr>entry_tf = ''1h'', entry_df = 0, entry_datetime = 0\<rparr>"
    by (simp add: is_outdated_def example_host_def)
  from cache_dataframe_roundtrip [OF c2, where h = example_host and pair = "''BTC/USDT''"
      and tf = "''1h''"] d mo o
  have cl: "\<exists>s'. cleanup_cache example_host example_state = Inr s'
         \<and> get_dataframe_from_cache ''BTC/USDT'' ''1h'' s' = Inr None"
    by blast
  from r g f m a f0 mut have "\<exists>s'. cache_dataframe example_host 0 ''BTC/USDT'' ''1h'' example_started = Inr s'
        \<and> get_dataframe_from_cache ''BTC/USDT'' ''1h'' s' = Inr (Some 1)
        \<and> frames s' 1 = \<lparr>nrows = 2, columns = [(''close'', [PFloat 100, PFloat 101])]\<rparr>
        \<and> get_dataframe_from_cache ''BTC/USDT'' ''1h''
             (mutate_frame 0 (\<lambda>d. populate_entry_trend d ()) s') = Inr (Some 1)
        \<and> frames (mutate_frame 0 (\<lambda>d. populate_entry_trend d ()) s') 1
            = \<lparr>nrows = 2, columns = [(''close'', [PFloat 100, PFloat 101])]\<rparr>
        \<and> frames (mutate_frame 0 (\<lambda>d. populate_entry_trend d ()) s') 0
            \<noteq> \<lparr>nrows = 2, columns = [(''close'', [PFloat 100, PFloat 101])]\<rparr>"
    by (intro exI [of _ s']) simp
  with c n e c2 d mo o cl show ?thesis by simp
qed

end
